theory Spec2Isabelle
  imports Complex_Main "HOL-Library.Word"
begin

section \<open>SIFT tracking: tracking window, descriptor distance, optical flow\<close>

text \<open>
  Shallow embedding of \<^verbatim>\<open>src/SIFT_tracking/utils.cpp\<close> (\<^verbatim>\<open>descr_dist_sq\<close>,
  \<^verbatim>\<open>ModifyTrackingWindows\<close>, \<^verbatim>\<open>partial\<close>, \<^verbatim>\<open>getOptFlow\<close>) and of the constructor
  in \<^verbatim>\<open>src/SIFT_tracking/SIFT_opt_tracker.h\<close>.

  Conventions. A C \<^verbatim>\<open>int\<close> is an \<^typ>\<open>int\<close>: signed overflow is undefined in C and no
  property below depends on it. A C \<^verbatim>\<open>double\<close> is a \<^typ>\<open>real\<close>: rounding of floating
  point arithmetic is not modelled. The configuration macros
  \<^verbatim>\<open>TRACKING_WINDOW_SIZE\<close> and \<^verbatim>\<open>OPTICAL_FLOW_POINT_AREA\<close> are defined outside the
  sources at hand, so every function that uses one takes its value as its first argument.
\<close>

subsection \<open>Rectangles and the store of rectangle objects\<close>

text \<open>
  Modelled from the spec: the declaration of \<^verbatim>\<open>Rect\<close> is not among the sources; the code
  reads and writes its four integer fields \<^verbatim>\<open>upper\<close>, \<^verbatim>\<open>left\<close>, \<^verbatim>\<open>width\<close>,
  \<^verbatim>\<open>height\<close> (the spec's rectangle: top, left, width, height in pixels).
\<close>

record Rect =
  upper :: int
  left :: int
  width :: int
  height :: int

text \<open>
  \<^verbatim>\<open>ModifyTrackingWindows\<close> receives the target by reference and the window by pointer, so
  both may denote the same object. Rectangle objects therefore live in a store, and the
  function is a store transformer.
\<close>

type_synonym addr = nat
type_synonym store = "addr \<Rightarrow> Rect"

text \<open>
  OpenCV's \<^verbatim>\<open>cvRound\<close> (library code, outside the repository): the nearest integer, a
  tie going to the even neighbour (the default rounding mode of the conversion
  instruction it compiles to).
\<close>

definition cvRound :: "real \<Rightarrow> int" where
  "cvRound x =
     (let f = \<lfloor>x\<rfloor>; r = x - of_int f
      in if r < 1 / 2 then f
         else if 1 / 2 < r then f + 1
         else if even f then f else f + 1)"

subsection \<open>\<^verbatim>\<open>ModifyTrackingWindows\<close>\<close>

text \<open>
  One definition per statement of the source, in the order of the source. \<open>tws\<close> is
  \<^verbatim>\<open>TRACKING_WINDOW_SIZE\<close>, \<open>tr\<close> the object \<^verbatim>\<open>trackingRect\<close> refers to, \<open>tw\<close> the object
  \<^verbatim>\<open>TrackingWindow\<close> points to; \<^verbatim>\<open>WholeImageSize\<close> is passed by value.
\<close>

definition mtw_pad :: "real \<Rightarrow> addr \<Rightarrow> addr \<Rightarrow> store \<Rightarrow> store" where
  "mtw_pad tws tr tw s0 =
     (let s1 = s0(tw := (s0 tw)\<lparr>upper := upper (s0 tr) - cvRound (tws * of_int (height (s0 tr)))\<rparr>);
          s2 = s1(tw := (s1 tw)\<lparr>left := left (s1 tr) - cvRound (tws * of_int (width (s1 tr)))\<rparr>);
          s3 = s2(tw := (s2 tw)\<lparr>width := width (s2 tr) + 2 * cvRound (tws * of_int (width (s2 tr)))\<rparr>);
          s4 = s3(tw := (s3 tw)\<lparr>height := height (s3 tr) + 2 * cvRound (tws * of_int (height (s3 tr)))\<rparr>)
      in s4)"

definition mtw_clamp_top :: "addr \<Rightarrow> store \<Rightarrow> store" where
  "mtw_clamp_top tw s =
     (if upper (s tw) < 0
      then (let s1 = s(tw := (s tw)\<lparr>height := height (s tw) - \<bar>upper (s tw)\<bar>\<rparr>)
            in s1(tw := (s1 tw)\<lparr>upper := 0\<rparr>))
      else s)"

definition mtw_clamp_bottom :: "addr \<Rightarrow> Rect \<Rightarrow> store \<Rightarrow> store" where
  "mtw_clamp_bottom tw WholeImageSize s =
     (if upper (s tw) + height (s tw) > height WholeImageSize
      then s(tw := (s tw)\<lparr>height := height (s tw)
                 - \<bar>(upper (s tw) + height (s tw)) - height WholeImageSize\<bar>\<rparr>)
      else s)"

definition mtw_clamp_left :: "addr \<Rightarrow> store \<Rightarrow> store" where
  "mtw_clamp_left tw s =
     (if left (s tw) < 0
      then (let s1 = s(tw := (s tw)\<lparr>width := width (s tw) - \<bar>left (s tw)\<bar>\<rparr>)
            in s1(tw := (s1 tw)\<lparr>left := 0\<rparr>))
      else s)"

definition mtw_clamp_right :: "addr \<Rightarrow> Rect \<Rightarrow> store \<Rightarrow> store" where
  "mtw_clamp_right tw WholeImageSize s =
     (if left (s tw) + width (s tw) > width WholeImageSize
      then s(tw := (s tw)\<lparr>width := width (s tw)
                 - \<bar>left (s tw) + width (s tw) - width WholeImageSize\<bar>\<rparr>)
      else s)"

definition ModifyTrackingWindows :: "real \<Rightarrow> addr \<Rightarrow> addr \<Rightarrow> Rect \<Rightarrow> store \<Rightarrow> store" where
  "ModifyTrackingWindows tws tr tw WholeImageSize s =
     mtw_clamp_right tw WholeImageSize
       (mtw_clamp_left tw
         (mtw_clamp_bottom tw WholeImageSize
           (mtw_clamp_top tw
             (mtw_pad tws tr tw s))))"

text \<open>
  The spec's \<^verbatim>\<open>ComputeWindow\<close>: the rectangle a call leaves in the window object when the
  target is held in an object of its own (address 0) and the window is address 1.
\<close>

definition ComputeWindow :: "real \<Rightarrow> Rect \<Rightarrow> Rect \<Rightarrow> Rect" where
  "ComputeWindow tws trackingRect WholeImageSize =
     ModifyTrackingWindows tws 0 1 WholeImageSize (\<lambda>_. trackingRect) 1"

subsection \<open>The window computed by the constructor of \<^verbatim>\<open>SIFT_opt_tracker\<close>\<close>

text \<open>
  The four assignments to \<^verbatim>\<open>this->TrackingWindow\<close> in the constructor; the target is a
  by-value parameter there, and nothing else the constructor does touches the window.
\<close>

definition SIFT_opt_tracker_TrackingWindow :: "real \<Rightarrow> Rect \<Rightarrow> Rect" where
  "SIFT_opt_tracker_TrackingWindow tws trackingRect =
     \<lparr>upper = upper trackingRect - cvRound (tws * of_int (height trackingRect)),
      left = left trackingRect - cvRound (tws * of_int (width trackingRect)),
      width = width trackingRect + cvRound (tws * of_int (width trackingRect)),
      height = height trackingRect + cvRound (tws * of_int (height trackingRect))\<rparr>"


subsection \<open>\<^verbatim>\<open>descr_dist_sq\<close>\<close>

text \<open>
  Modelled from the spec: the declaration of \<^verbatim>\<open>SIFT_feature_unit\<close> is not among the
  sources; \<^verbatim>\<open>descr_dist_sq\<close> reads its descriptor length \<^verbatim>\<open>d\<close> and its descriptor array
  \<^verbatim>\<open>descr\<close> (the spec's feature descriptor: a numeric vector of length \<open>d\<close>). The array
  is read by a C \<^verbatim>\<open>int\<close> index and never bounds-checked, hence a function of the index.
\<close>

record SIFT_feature_unit =
  d :: int
  descr :: "int \<Rightarrow> real"

text \<open>The largest finite \<^verbatim>\<open>double\<close>, of \<^verbatim>\<open>float.h\<close>.\<close>

definition DBL_MAX :: real where
  "DBL_MAX = (2 - 1 / 2 ^ 52) * 2 ^ 1023"

text \<open>The \<^verbatim>\<open>for\<close> loop of \<^verbatim>\<open>descr_dist_sq\<close>, from the index \<open>i\<close> on.\<close>

function descr_dist_loop :: "(int \<Rightarrow> real) \<Rightarrow> (int \<Rightarrow> real) \<Rightarrow> int \<Rightarrow> int \<Rightarrow> real \<Rightarrow> real" where
  "descr_dist_loop descr1 descr2 n i dsq =
     (if i < n
      then (let diff = descr1 i - descr2 i
            in descr_dist_loop descr1 descr2 n (i + 1) (dsq + diff * diff))
      else dsq)"
  by pat_completeness auto
termination
  by (relation "measure (\<lambda>(descr1, descr2, n, i, dsq). nat (n - i))") auto

declare descr_dist_loop.simps [simp del]

definition descr_dist_sq :: "SIFT_feature_unit \<Rightarrow> SIFT_feature_unit \<Rightarrow> real" where
  "descr_dist_sq f1 f2 =
     (let n = d f1
      in if d f2 \<noteq> n then DBL_MAX
         else descr_dist_loop (descr f1) (descr f2) n 0 0)"

subsection \<open>Images and points\<close>

text \<open>
  Modelled from the spec: \<^verbatim>\<open>IplImage\<close> is OpenCV's image header and the accessor
  \<^verbatim>\<open>pixval8U\<close> is declared outside the sources at hand. The spec describes a
  single-channel 8-bit buffer with a stride, read without bounds checks: the pixel at row
  \<open>r\<close>, column \<open>c\<close> is the byte at offset \<open>widthStep * r + c\<close> from \<^verbatim>\<open>imageData\<close>, read
  as an unsigned value.
\<close>

record IplImage =
  widthStep :: int
  imageData :: "int \<Rightarrow> 8 word"

definition pixval8U :: "IplImage \<Rightarrow> int \<Rightarrow> int \<Rightarrow> int" where
  "pixval8U img r c = uint (imageData img (widthStep img * r + c))"

text \<open>
  Modelled from the spec: the declaration of \<^verbatim>\<open>Point2D\<close> is not among the sources. The
  spec gives it two readings, an image position (row, col) and a displacement or
  gradient (drow, dcol); the code uses both sets of field names. Each reading is a
  record here: positions are pixel indices, displacements are \<^verbatim>\<open>double\<close>s.
\<close>

record Point2D =
  row :: int
  col :: int

record Vector2D =
  drow :: real
  dcol :: real

subsection \<open>\<^verbatim>\<open>partial\<close> and \<^verbatim>\<open>getOptFlow\<close>\<close>

definition partial :: "IplImage \<Rightarrow> Point2D \<Rightarrow> Vector2D" where
  "partial ipIm p =
     \<lparr>drow = of_int (pixval8U ipIm (row p + 1) (col p) - pixval8U ipIm (row p - 1) (col p)) / 2,
      dcol = of_int (pixval8U ipIm (row p) (col p + 1) - pixval8U ipIm (row p) (col p - 1)) / 2\<rparr>"

text \<open>The five accumulators of \<^verbatim>\<open>getOptFlow\<close>: \<^verbatim>\<open>M11\<close>, \<^verbatim>\<open>M12\<close>, \<^verbatim>\<open>M22\<close>, \<^verbatim>\<open>b[0]\<close>, \<^verbatim>\<open>b[1]\<close>.\<close>

record flow_sums =
  M11 :: real
  M12 :: real
  M22 :: real
  b0 :: real
  b1 :: real

text \<open>The body of the inner loop, at the offsets \<open>i\<close> (rows) and \<open>j\<close> (columns).\<close>

definition flow_body :: "IplImage \<Rightarrow> IplImage \<Rightarrow> Point2D \<Rightarrow> int \<Rightarrow> int \<Rightarrow> flow_sums \<Rightarrow> flow_sums" where
  "flow_body currentFrame preFrame p i j a =
     (let temp = partial currentFrame \<lparr>row = row p + i, col = col p + j\<rparr>;
          dI = of_int (pixval8U currentFrame (row p + i) (col p + j)
                       - pixval8U preFrame (row p + i) (col p + j))
      in \<lparr>M11 = M11 a + dcol temp * dcol temp,
          M12 = M12 a + dcol temp * drow temp,
          M22 = M22 a + drow temp * drow temp,
          b0 = b0 a + dcol temp * dI,
          b1 = b1 a + drow temp * dI\<rparr>)"

function flow_inner :: "IplImage \<Rightarrow> IplImage \<Rightarrow> Point2D \<Rightarrow> int \<Rightarrow> int \<Rightarrow> int \<Rightarrow> flow_sums \<Rightarrow> flow_sums" where
  "flow_inner currentFrame preFrame p i j hi a =
     (if j < hi
      then flow_inner currentFrame preFrame p i (j + 1) hi (flow_body currentFrame preFrame p i j a)
      else a)"
  by pat_completeness auto
termination
  by (relation "measure (\<lambda>(currentFrame, preFrame, p, i, j, hi, a). nat (hi - j))") auto

declare flow_inner.simps [simp del]

function flow_outer :: "IplImage \<Rightarrow> IplImage \<Rightarrow> Point2D \<Rightarrow> int \<Rightarrow> int \<Rightarrow> int \<Rightarrow> flow_sums \<Rightarrow> flow_sums" where
  "flow_outer currentFrame preFrame p lo i hi a =
     (if i < hi
      then flow_outer currentFrame preFrame p lo (i + 1) hi (flow_inner currentFrame preFrame p i lo hi a)
      else a)"
  by pat_completeness auto
termination
  by (relation "measure (\<lambda>(currentFrame, preFrame, p, lo, i, hi, a). nat (hi - i))") auto

declare flow_outer.simps [simp del]

text \<open>C's integer division truncates towards zero.\<close>

definition c_div :: "int \<Rightarrow> int \<Rightarrow> int" where
  "c_div a b = (if (a < 0) = (b < 0) then \<bar>a\<bar> div \<bar>b\<bar> else - (\<bar>a\<bar> div \<bar>b\<bar>))"

text \<open>
  The two loops of \<^verbatim>\<open>getOptFlow\<close>, from \<^verbatim>\<open>-OPTICAL_FLOW_POINT_AREA/2\<close> (the negated
  constant, divided) up to, and excluding, \<^verbatim>\<open>OPTICAL_FLOW_POINT_AREA/2\<close>.
\<close>

definition getOptFlow_sums :: "int \<Rightarrow> IplImage \<Rightarrow> Point2D \<Rightarrow> IplImage \<Rightarrow> flow_sums" where
  "getOptFlow_sums area currentFrame p preFrame =
     flow_outer currentFrame preFrame p (c_div (- area) 2) (c_div (- area) 2) (c_div area 2)
       \<lparr>M11 = 0, M12 = 0, M22 = 0, b0 = 0, b1 = 0\<rparr>"

text \<open>
  2 by 2 matrices in row-major order and 2-vectors, as \<^verbatim>\<open>cvMat(2, 2, CV_64FC1, a)\<close> and
  \<^verbatim>\<open>cvMat(2, 1, CV_64FC1, b)\<close> lay them out.
\<close>

type_synonym mat2 = "real \<times> real \<times> real \<times> real"
type_synonym vec2 = "real \<times> real"

definition cvMatMul :: "mat2 \<Rightarrow> vec2 \<Rightarrow> vec2" where
  "cvMatMul A x =
     (case A of (a00, a01, a10, a11) \<Rightarrow>
        (case x of (x0, x1) \<Rightarrow> (a00 * x0 + a01 * x1, a10 * x0 + a11 * x1)))"

text \<open>
  OpenCV's \<^verbatim>\<open>cvInvert\<close> with the method \<^verbatim>\<open>CV_SVD\<close> (library code, outside the repository):
  the inverse of a regular matrix and the pseudo-inverse of a singular one. In exact
  arithmetic, for a 2 by 2 matrix: the cofactor formula when the determinant is not 0;
  the zero matrix for the zero matrix; and for a matrix of rank 1 its transpose divided
  by the sum of the squares of its entries.
\<close>

definition cvInvert_SVD :: "mat2 \<Rightarrow> mat2" where
  "cvInvert_SVD A =
     (case A of (a00, a01, a10, a11) \<Rightarrow>
        (let det = a00 * a11 - a01 * a10;
             n = a00 * a00 + a01 * a01 + a10 * a10 + a11 * a11
         in if det \<noteq> 0 then (a11 / det, - a01 / det, - a10 / det, a00 / det)
            else if n = 0 then (0, 0, 0, 0)
            else (a00 / n, a10 / n, a01 / n, a11 / n)))"

definition getOptFlow :: "int \<Rightarrow> IplImage \<Rightarrow> Point2D \<Rightarrow> IplImage \<Rightarrow> Vector2D" where
  "getOptFlow area currentFrame p preFrame =
     (let a = getOptFlow_sums area currentFrame p preFrame;
          M = (M11 a, M12 a, M12 a, M22 a);
          Mi = cvInvert_SVD M;
          Mb = (- b0 a, - b1 a);
          Mr = cvMatMul Mi Mb;
          vy = snd Mr;
          vx = fst Mr
      in \<lparr>drow = vy, dcol = vx\<rparr>)"

subsection \<open>The quantities the optical-flow claims speak of\<close>

text \<open>
  Written from the spec's words, to be compared with what the code computes: the
  central-difference gradient of an image \<open>I\<close> in the column direction,
  \<open>(I(row, col+1) - I(row, col-1)) / 2\<close>, the same in the row direction, and the
  intensity difference between the current and the previous frame.
\<close>

definition spec_gx :: "IplImage \<Rightarrow> int \<Rightarrow> int \<Rightarrow> real" where
  "spec_gx I r c = of_int (pixval8U I r (c + 1) - pixval8U I r (c - 1)) / 2"

definition spec_gy :: "IplImage \<Rightarrow> int \<Rightarrow> int \<Rightarrow> real" where
  "spec_gy I r c = of_int (pixval8U I (r + 1) c - pixval8U I (r - 1) c) / 2"

definition spec_dI :: "IplImage \<Rightarrow> IplImage \<Rightarrow> int \<Rightarrow> int \<Rightarrow> real" where
  "spec_dI Icur Iprev r c = of_int (pixval8U Icur r c - pixval8U Iprev r c)"

text \<open>The same differences as integers, before the division by 2.\<close>

definition px_dx :: "IplImage \<Rightarrow> int \<Rightarrow> int \<Rightarrow> int" where
  "px_dx I r c = pixval8U I r (c + 1) - pixval8U I r (c - 1)"

definition px_dy :: "IplImage \<Rightarrow> int \<Rightarrow> int \<Rightarrow> int" where
  "px_dy I r c = pixval8U I (r + 1) c - pixval8U I (r - 1) c"

definition px_dt :: "IplImage \<Rightarrow> IplImage \<Rightarrow> int \<Rightarrow> int \<Rightarrow> int" where
  "px_dt I J r c = pixval8U I r c - pixval8U J r c"

text \<open>Products, transposes and scalar quotients of 2 by 2 matrices.\<close>

definition mat2_mul :: "mat2 \<Rightarrow> mat2 \<Rightarrow> mat2" where
  "mat2_mul A B =
     (case A of (a00, a01, a10, a11) \<Rightarrow>
        (case B of (b00, b01, b10, b11) \<Rightarrow>
           (a00 * b00 + a01 * b10, a00 * b01 + a01 * b11,
            a10 * b00 + a11 * b10, a10 * b01 + a11 * b11)))"

definition mat2_transpose :: "mat2 \<Rightarrow> mat2" where
  "mat2_transpose A = (case A of (a00, a01, a10, a11) \<Rightarrow> (a00, a10, a01, a11))"

definition mat2_div :: "mat2 \<Rightarrow> real \<Rightarrow> mat2" where
  "mat2_div A n = (case A of (a00, a01, a10, a11) \<Rightarrow> (a00 / n, a01 / n, a10 / n, a11 / n))"


section \<open>The tracking window\<close>

subsection \<open>What each statement does to the store\<close>

lemma mtw_pad_other: "a \<noteq> tw \<Longrightarrow> mtw_pad tws tr tw s a = s a"
  by (simp add: mtw_pad_def Let_def)

text \<open>
  Every field of the target is read before the window field of the same name is written,
  so the padded window is the same whether or not target and window are one object.
\<close>

lemma mtw_pad_window:
  "mtw_pad tws tr tw s tw =
     \<lparr>upper = upper (s tr) - cvRound (tws * of_int (height (s tr))),
      left = left (s tr) - cvRound (tws * of_int (width (s tr))),
      width = width (s tr) + 2 * cvRound (tws * of_int (width (s tr))),
      height = height (s tr) + 2 * cvRound (tws * of_int (height (s tr)))\<rparr>"
  by (cases "tr = tw") (simp_all add: mtw_pad_def Let_def)

lemma mtw_clamp_top_other: "a \<noteq> tw \<Longrightarrow> mtw_clamp_top tw s a = s a"
  by (simp add: mtw_clamp_top_def Let_def)

lemma mtw_clamp_top_window:
  "mtw_clamp_top tw s tw =
     (if upper (s tw) < 0
      then (s tw)\<lparr>height := height (s tw) + upper (s tw), upper := 0\<rparr>
      else s tw)"
  by (simp add: mtw_clamp_top_def Let_def)

lemma mtw_clamp_bottom_other: "a \<noteq> tw \<Longrightarrow> mtw_clamp_bottom tw W s a = s a"
  by (simp add: mtw_clamp_bottom_def)

lemma mtw_clamp_bottom_window:
  "mtw_clamp_bottom tw W s tw =
     (if upper (s tw) + height (s tw) > height W
      then (s tw)\<lparr>height := height W - upper (s tw)\<rparr>
      else s tw)"
  by (simp add: mtw_clamp_bottom_def)

lemma mtw_clamp_left_other: "a \<noteq> tw \<Longrightarrow> mtw_clamp_left tw s a = s a"
  by (simp add: mtw_clamp_left_def Let_def)

lemma mtw_clamp_left_window:
  "mtw_clamp_left tw s tw =
     (if left (s tw) < 0
      then (s tw)\<lparr>width := width (s tw) + left (s tw), left := 0\<rparr>
      else s tw)"
  by (simp add: mtw_clamp_left_def Let_def)

lemma mtw_clamp_right_other: "a \<noteq> tw \<Longrightarrow> mtw_clamp_right tw W s a = s a"
  by (simp add: mtw_clamp_right_def)

lemma mtw_clamp_right_window:
  "mtw_clamp_right tw W s tw =
     (if left (s tw) + width (s tw) > width W
      then (s tw)\<lparr>width := width W - left (s tw)\<rparr>
      else s tw)"
  by (simp add: mtw_clamp_right_def)

lemmas mtw_other = mtw_pad_other mtw_clamp_top_other mtw_clamp_bottom_other
  mtw_clamp_left_other mtw_clamp_right_other

lemmas mtw_window_simps = mtw_pad_window mtw_clamp_top_window mtw_clamp_bottom_window
  mtw_clamp_left_window mtw_clamp_right_window

lemma mtw_window_closed:
  "ModifyTrackingWindows tws tr tw W s tw =
    (let t = s tr;
         ph = cvRound (tws * of_int (height t)); pw = cvRound (tws * of_int (width t));
         pu = upper t - ph; pl = left t - pw; hh = height t + 2 * ph; ww = width t + 2 * pw
     in \<lparr>upper = max 0 pu, left = max 0 pl,
         width = min (pl + ww) (width W) - max 0 pl,
         height = min (pu + hh) (height W) - max 0 pu\<rparr>)"
  by (simp add: ModifyTrackingWindows_def mtw_window_simps Let_def)

lemma mtw_window: "ModifyTrackingWindows tws tr tw W s tw = ComputeWindow tws (s tr) W"
  by (simp add: ComputeWindow_def mtw_window_closed)

lemma clamp_axis:
  fixes pu hh H :: int
  shows "0 \<le> max 0 pu \<and> max 0 pu + (min (pu + hh) H - max 0 pu) \<le> H
    \<and> (0 \<le> min (pu + hh) H - max 0 pu) = (0 \<le> hh \<and> pu \<le> H \<and> 0 \<le> pu + hh \<and> 0 \<le> H)"
  by (auto simp: min_def max_def)

lemma mtw_in_bounds:
  "0 \<le> upper (ModifyTrackingWindows tws tr tw W s tw)"
  "0 \<le> left (ModifyTrackingWindows tws tr tw W s tw)"
  "upper (ModifyTrackingWindows tws tr tw W s tw)
     + height (ModifyTrackingWindows tws tr tw W s tw) \<le> height W"
  "left (ModifyTrackingWindows tws tr tw W s tw)
     + width (ModifyTrackingWindows tws tr tw W s tw) \<le> width W"
  by (simp_all add: mtw_window_closed Let_def)

subsection \<open>Padding, then clamping\<close>

text \<open>
  Claim C2. Whatever the target rectangle and the image bounds, the window left by
  \<^verbatim>\<open>ModifyTrackingWindows\<close> is obtained in two steps. First the target is extended by
  \<open>cvRound (tws * height)\<close> above and below and by \<open>cvRound (tws * width)\<close> to the left
  and to the right: top and left move out by one padding, height and width grow by two.
  Then it is clamped: a negative top (left) becomes 0 and the height (width) shrinks by
  the amount \<open>0 - top\<close> (\<open>0 - left\<close>) that stuck out; a bottom (right) edge beyond the
  image height (width) shrinks the height (width) by the amount it exceeds it.
\<close>

theorem ModifyTrackingWindows_pads_then_clamps:
  "ModifyTrackingWindows tws tr tw W s tw =
    (let t = s tr;
         ph = cvRound (tws * of_int (height t));
         pw = cvRound (tws * of_int (width t));
         top = upper t - ph;
         lft = left t - pw;
         hh = height t + 2 * ph;
         ww = width t + 2 * pw;
         top' = (if top < 0 then 0 else top);
         hh' = (if top < 0 then hh - (0 - top) else hh);
         lft' = (if lft < 0 then 0 else lft);
         ww' = (if lft < 0 then ww - (0 - lft) else ww)
     in \<lparr>upper = top',
         left = lft',
         width = (if lft' + ww' > width W then ww' - (lft' + ww' - width W) else ww'),
         height = (if top' + hh' > height W then hh' - (top' + hh' - height W) else hh')\<rparr>)"
  by (simp add: ModifyTrackingWindows_def mtw_window_simps Let_def)

subsection \<open>The window stays inside the image, but may be degenerate\<close>

text \<open>
  Claim C3, as stated, asks for a non-negative height. A target below the image gives a
  negative one: with padding fraction 1/2, target (upper 200, left 0, 10 by 10) and a
  100 by 100 image, the padded window starts at row 195, and clamping its bottom to the
  image leaves height \<open>100 - 195\<close>.
\<close>

theorem ModifyTrackingWindows_negative_height:
  "\<not> 0 \<le> height (ModifyTrackingWindows (1 / 2) 0 1
      \<lparr>upper = 0, left = 0, width = 100, height = 100\<rparr>
      (\<lambda>_. \<lparr>upper = 200, left = 0, width = 10, height = 10\<rparr>) 1)"
  by (simp add: ModifyTrackingWindows_def mtw_window_simps cvRound_def Let_def)

text \<open>
  Claim C3, amended. For every target and every image size the window \<open>w\<close> satisfies
  \<open>0 \<le> upper w\<close>, \<open>0 \<le> left w\<close>, \<open>upper w + height w \<le> image height\<close> and
  \<open>left w + width w \<le> image width\<close>. Its height is non-negative exactly when the padded
  extent \<open>[top, top + hh)\<close> has non-negative length, starts no later than the image height
  and ends no earlier than 0, and the image height is non-negative; likewise its width.
\<close>

theorem ModifyTrackingWindows_bounds:
  "(let t = s tr;
        ph = cvRound (tws * of_int (height t));
        pw = cvRound (tws * of_int (width t));
        top = upper t - ph;
        lft = left t - pw;
        hh = height t + 2 * ph;
        ww = width t + 2 * pw;
        w = ModifyTrackingWindows tws tr tw W s tw
    in 0 \<le> upper w \<and> 0 \<le> left w
       \<and> upper w + height w \<le> height W
       \<and> left w + width w \<le> width W
       \<and> (0 \<le> height w) = (0 \<le> hh \<and> top \<le> height W \<and> 0 \<le> top + hh \<and> 0 \<le> height W)
       \<and> (0 \<le> width w) = (0 \<le> ww \<and> lft \<le> width W \<and> 0 \<le> lft + ww \<and> 0 \<le> width W))"
proof -
  define t where "t = s tr"
  define ph where "ph = cvRound (tws * of_int (height t))"
  define pw where "pw = cvRound (tws * of_int (width t))"
  have w: "ModifyTrackingWindows tws tr tw W s tw =
      \<lparr>upper = max 0 (upper t - ph), left = max 0 (left t - pw),
       width = min (left t - pw + (width t + 2 * pw)) (width W) - max 0 (left t - pw),
       height = min (upper t - ph + (height t + 2 * ph)) (height W) - max 0 (upper t - ph)\<rparr>"
    by (simp add: mtw_window_closed Let_def t_def ph_def pw_def)
  show ?thesis
    unfolding Let_def t_def [symmetric] ph_def [symmetric] pw_def [symmetric] w
    using clamp_axis [of "upper t - ph" "height t + 2 * ph" "height W"]
      clamp_axis [of "left t - pw" "width t + 2 * pw" "width W"]
    by simp
qed

subsection \<open>The constructor's window against \<^verbatim>\<open>ModifyTrackingWindows\<close>\<close>

text \<open>
  Claim C4 says that the window the constructor stores is the one
  \<^verbatim>\<open>ModifyTrackingWindows\<close> computes. The constructor adds the padding once to width and
  height where \<^verbatim>\<open>ModifyTrackingWindows\<close> adds it twice, and it does not clamp. With
  padding fraction 1/2 in a 100 by 100 image: for the target (10, 10, 20 by 20) the
  constructor stores 30 by 30 at (0, 0), the function computes 40 by 40 at (0, 0); for
  the target (0, 0, 20 by 20) the constructor stores a window starting at row -10,
  column -10, the function one starting at (0, 0).
\<close>

theorem constructor_window_differs:
  "SIFT_opt_tracker_TrackingWindow (1 / 2) \<lparr>upper = 10, left = 10, width = 20, height = 20\<rparr>
     = \<lparr>upper = 0, left = 0, width = 30, height = 30\<rparr>
   \<and> ComputeWindow (1 / 2) \<lparr>upper = 10, left = 10, width = 20, height = 20\<rparr>
        \<lparr>upper = 0, left = 0, width = 100, height = 100\<rparr>
     = \<lparr>upper = 0, left = 0, width = 40, height = 40\<rparr>
   \<and> SIFT_opt_tracker_TrackingWindow (1 / 2) \<lparr>upper = 0, left = 0, width = 20, height = 20\<rparr>
     = \<lparr>upper = -10, left = -10, width = 30, height = 30\<rparr>
   \<and> ComputeWindow (1 / 2) \<lparr>upper = 0, left = 0, width = 20, height = 20\<rparr>
        \<lparr>upper = 0, left = 0, width = 100, height = 100\<rparr>
     = \<lparr>upper = 0, left = 0, width = 30, height = 30\<rparr>"
  by (simp add: SIFT_opt_tracker_TrackingWindow_def ComputeWindow_def
      ModifyTrackingWindows_def mtw_window_simps cvRound_def Let_def)

text \<open>
  For a target strictly inside the image the two windows agree only when both rounded
  paddings are 0, whatever the padding fraction.
\<close>

lemma constructor_window_eq_iff:
  "0 \<le> upper t \<Longrightarrow> 0 \<le> left t \<Longrightarrow>
   upper t + height t < height W \<Longrightarrow> left t + width t < width W \<Longrightarrow>
   (SIFT_opt_tracker_TrackingWindow tws t = ComputeWindow tws t W) =
   (cvRound (tws * of_int (height t)) = 0 \<and> cvRound (tws * of_int (width t)) = 0)"
  unfolding ComputeWindow_def mtw_window_closed Let_def SIFT_opt_tracker_TrackingWindow_def
  by (auto simp: min_def max_def)

subsection \<open>Applying \<^verbatim>\<open>ModifyTrackingWindows\<close> to its own output\<close>

text \<open>
  Claim C8, as stated, makes every output a fixed point. With padding fraction 1/2 in a
  100 by 100 image the target (10, 10, 20 by 20) gives the window (0, 0, 40 by 40), and
  that window, given back as the target, gives (0, 0, 60 by 60): the function pads
  whatever it is given.
\<close>

theorem ModifyTrackingWindows_not_idempotent:
  "ModifyTrackingWindows (1 / 2) 0 1 \<lparr>upper = 0, left = 0, width = 100, height = 100\<rparr>
     (\<lambda>_. ModifyTrackingWindows (1 / 2) 0 1 \<lparr>upper = 0, left = 0, width = 100, height = 100\<rparr>
        (\<lambda>_. \<lparr>upper = 10, left = 10, width = 20, height = 20\<rparr>) 1) 1
   \<noteq> ModifyTrackingWindows (1 / 2) 0 1 \<lparr>upper = 0, left = 0, width = 100, height = 100\<rparr>
        (\<lambda>_. \<lparr>upper = 10, left = 10, width = 20, height = 20\<rparr>) 1"
  by (simp add: ModifyTrackingWindows_def mtw_window_simps cvRound_def Let_def)

text \<open>
  Claim C8, amended. Let \<open>r\<close> be any output of \<^verbatim>\<open>ModifyTrackingWindows\<close> for the bounds
  \<open>W\<close>. A second call with \<open>r\<close> as the target and the same bounds returns \<open>r\<close> exactly
  when, on each axis, the rounded padding of \<open>r\<close> is 0, or it is positive and \<open>r\<close>
  already spans the whole image on that axis (starts at 0 with the image's height,
  respectively width).
\<close>

theorem ModifyTrackingWindows_fixed_point_iff:
  "(let r = ModifyTrackingWindows tws tr tw W s tw;
        ph = cvRound (tws * of_int (height r));
        pw = cvRound (tws * of_int (width r))
    in (ModifyTrackingWindows tws tr' tw' W (s'(tr' := r)) tw' = r) =
       ((ph = 0 \<or> upper r = 0 \<and> height r = height W \<and> 0 < ph) \<and>
        (pw = 0 \<or> left r = 0 \<and> width r = width W \<and> 0 < pw)))"
proof -
  define r where "r = ModifyTrackingWindows tws tr tw W s tw"
  have b: "0 \<le> upper r" "0 \<le> left r" "upper r + height r \<le> height W"
     "left r + width r \<le> width W"
    by (simp_all add: r_def mtw_in_bounds)
  have "(ModifyTrackingWindows tws tr' tw' W (s'(tr' := r)) tw' = r) =
       ((cvRound (tws * of_int (height r)) = 0
           \<or> upper r = 0 \<and> height r = height W \<and> 0 < cvRound (tws * of_int (height r))) \<and>
        (cvRound (tws * of_int (width r)) = 0
           \<or> left r = 0 \<and> width r = width W \<and> 0 < cvRound (tws * of_int (width r))))"
    unfolding mtw_window_closed Let_def using b
    by (cases r) (auto simp: min_def max_def)
  then show ?thesis by (simp add: r_def Let_def)
qed

subsection \<open>What a call writes\<close>

text \<open>
  Claim C9, as stated, has the target unchanged after every call. The target is taken by
  non-const reference and the window by pointer, so a call may pass one object as both;
  then the target is the window and is overwritten: the object at address 0, holding
  (10, 10, 20 by 20) before the call, is no longer that rectangle after it.
\<close>

theorem ModifyTrackingWindows_aliased_target_changes:
  "ModifyTrackingWindows (1 / 2) 0 0 \<lparr>upper = 0, left = 0, width = 100, height = 100\<rparr>
     (\<lambda>_. \<lparr>upper = 10, left = 10, width = 20, height = 20\<rparr>) 0
     \<noteq> \<lparr>upper = 10, left = 10, width = 20, height = 20\<rparr>"
  by (simp add: ModifyTrackingWindows_def mtw_window_simps cvRound_def Let_def)

text \<open>
  Claim C9, amended. A call writes only the object \<^verbatim>\<open>TrackingWindow\<close> points to: every
  other rectangle object is unchanged, so the target is unchanged whenever it is not that
  same object. (\<^verbatim>\<open>WholeImageSize\<close> is passed by value: the caller's rectangle is not
  reachable from the call, which is why it is a value and not an address here.)
\<close>

theorem ModifyTrackingWindows_frame:
  "\<forall>a. a \<noteq> tw \<longrightarrow> ModifyTrackingWindows tws tr tw W s a = s a"
  by (simp add: ModifyTrackingWindows_def mtw_other)

theorem ModifyTrackingWindows_frame_witness:
  "ModifyTrackingWindows (1 / 2) 0 1 \<lparr>upper = 0, left = 0, width = 100, height = 100\<rparr>
     (\<lambda>_. \<lparr>upper = 10, left = 10, width = 20, height = 20\<rparr>) 0
     = \<lparr>upper = 10, left = 10, width = 20, height = 20\<rparr>"
  using ModifyTrackingWindows_frame [of 1 "1 / 2" 0
      "\<lparr>upper = 0, left = 0, width = 100, height = 100\<rparr>"
      "\<lambda>_. \<lparr>upper = 10, left = 10, width = 20, height = 20\<rparr>"]
  by simp

section \<open>The descriptor distance\<close>

lemma int_interval_first:
  fixes i n :: int
  shows "i < n \<Longrightarrow> {i..<n} = insert i {i + 1..<n}"
  by auto

lemma sum_int_first:
  fixes i n :: int and f :: "int \<Rightarrow> real"
  shows "i < n \<Longrightarrow> sum f {i..<n} = f i + sum f {i + 1..<n}"
  by (simp add: int_interval_first)

lemma descr_dist_loop_sum:
  "descr_dist_loop descr1 descr2 n i dsq =
     dsq + (\<Sum>k\<in>{i..<n}. (descr1 k - descr2 k) * (descr1 k - descr2 k))"
proof (induction descr1 descr2 n i dsq rule: descr_dist_loop.induct)
  case (1 descr1 descr2 n i dsq)
  show ?case
  proof (cases "i < n")
    case True
    then show ?thesis
      using "1.IH" [OF True refl]
      by (subst descr_dist_loop.simps) (simp add: sum_int_first Let_def)
  next
    case False
    then show ?thesis by (subst descr_dist_loop.simps) simp
  qed
qed

text \<open>
  Claim C6. For all features \<open>f1\<close> and \<open>f2\<close>: when their descriptor lengths are equal,
  \<^verbatim>\<open>descr_dist_sq\<close> returns the sum over the dimensions \<open>0 \<le> k < d\<close> of the squared
  differences of their descriptor entries; when the lengths differ it returns the value
  \<^verbatim>\<open>DBL_MAX\<close>. Either way it returns a number, never an error.
\<close>

theorem descr_dist_sq_correct:
  "descr_dist_sq f1 f2 =
     (if d f2 = d f1
      then (\<Sum>k\<in>{0..<d f1}. (descr f1 k - descr f2 k)\<^sup>2)
      else DBL_MAX)"
  by (simp add: descr_dist_sq_def descr_dist_loop_sum Let_def power2_eq_square)

theorem descr_dist_sq_correct_witness:
  "descr_dist_sq \<lparr>d = 3, descr = (\<lambda>i. of_int i)\<rparr> \<lparr>d = 3, descr = (\<lambda>i. 2 * of_int i + 1)\<rparr> = 14
   \<and> descr_dist_sq \<lparr>d = 3, descr = (\<lambda>i. of_int i)\<rparr> \<lparr>d = 2, descr = (\<lambda>i. 2 * of_int i + 1)\<rparr> = DBL_MAX"
  using descr_dist_sq_correct [of "\<lparr>d = 3, descr = (\<lambda>i. of_int i)\<rparr>" "\<lparr>d = 3, descr = (\<lambda>i. 2 * of_int i + 1)\<rparr>"]
    descr_dist_sq_correct [of "\<lparr>d = 3, descr = (\<lambda>i. of_int i)\<rparr>" "\<lparr>d = 2, descr = (\<lambda>i. 2 * of_int i + 1)\<rparr>"]
  by (simp add: sum_int_first)

section \<open>Optical flow\<close>

subsection \<open>The loops as sums\<close>

lemma flow_body_eq:
  "flow_body cur prev p i j a =
     \<lparr>M11 = M11 a + spec_gx cur (row p + i) (col p + j) * spec_gx cur (row p + i) (col p + j),
      M12 = M12 a + spec_gx cur (row p + i) (col p + j) * spec_gy cur (row p + i) (col p + j),
      M22 = M22 a + spec_gy cur (row p + i) (col p + j) * spec_gy cur (row p + i) (col p + j),
      b0 = b0 a + spec_gx cur (row p + i) (col p + j) * spec_dI cur prev (row p + i) (col p + j),
      b1 = b1 a + spec_gy cur (row p + i) (col p + j) * spec_dI cur prev (row p + i) (col p + j)\<rparr>"
  by (simp add: flow_body_def partial_def spec_gx_def spec_gy_def spec_dI_def Let_def)

lemma flow_inner_sums:
  "flow_inner cur prev p i j hi a =
     \<lparr>M11 = M11 a + (\<Sum>k\<in>{j..<hi}. spec_gx cur (row p + i) (col p + k) * spec_gx cur (row p + i) (col p + k)),
      M12 = M12 a + (\<Sum>k\<in>{j..<hi}. spec_gx cur (row p + i) (col p + k) * spec_gy cur (row p + i) (col p + k)),
      M22 = M22 a + (\<Sum>k\<in>{j..<hi}. spec_gy cur (row p + i) (col p + k) * spec_gy cur (row p + i) (col p + k)),
      b0 = b0 a + (\<Sum>k\<in>{j..<hi}. spec_gx cur (row p + i) (col p + k) * spec_dI cur prev (row p + i) (col p + k)),
      b1 = b1 a + (\<Sum>k\<in>{j..<hi}. spec_gy cur (row p + i) (col p + k) * spec_dI cur prev (row p + i) (col p + k))\<rparr>"
proof (induction cur prev p i j hi a rule: flow_inner.induct)
  case (1 cur prev p i j hi a)
  show ?case
  proof (cases "j < hi")
    case True
    show ?thesis
      apply (subst flow_inner.simps)
      apply (simp only: True if_True "1.IH" [OF True])
      apply (simp add: flow_body_eq sum_int_first True)
      done
  next
    case False
    then show ?thesis by (subst flow_inner.simps) simp
  qed
qed

lemma flow_outer_sums:
  "flow_outer cur prev p lo i hi a =
     \<lparr>M11 = M11 a + (\<Sum>m\<in>{i..<hi}. \<Sum>k\<in>{lo..<hi}. spec_gx cur (row p + m) (col p + k) * spec_gx cur (row p + m) (col p + k)),
      M12 = M12 a + (\<Sum>m\<in>{i..<hi}. \<Sum>k\<in>{lo..<hi}. spec_gx cur (row p + m) (col p + k) * spec_gy cur (row p + m) (col p + k)),
      M22 = M22 a + (\<Sum>m\<in>{i..<hi}. \<Sum>k\<in>{lo..<hi}. spec_gy cur (row p + m) (col p + k) * spec_gy cur (row p + m) (col p + k)),
      b0 = b0 a + (\<Sum>m\<in>{i..<hi}. \<Sum>k\<in>{lo..<hi}. spec_gx cur (row p + m) (col p + k) * spec_dI cur prev (row p + m) (col p + k)),
      b1 = b1 a + (\<Sum>m\<in>{i..<hi}. \<Sum>k\<in>{lo..<hi}. spec_gy cur (row p + m) (col p + k) * spec_dI cur prev (row p + m) (col p + k))\<rparr>"
proof (induction cur prev p lo i hi a rule: flow_outer.induct)
  case (1 cur prev p lo i hi a)
  show ?case
  proof (cases "i < hi")
    case True
    show ?thesis
      apply (subst flow_outer.simps)
      apply (simp only: True if_True "1.IH" [OF True])
      apply (simp add: flow_inner_sums sum_int_first True)
      done
  next
    case False
    then show ?thesis by (subst flow_outer.simps) simp
  qed
qed

lemma c_div_neg: "c_div (- a) 2 = - c_div a 2"
  by (simp add: c_div_def)

lemma getOptFlow_sums_eq:
  "getOptFlow_sums area cur p prev =
    (let h = c_div area 2 in
     \<lparr>M11 = (\<Sum>m\<in>{- h..<h}. \<Sum>k\<in>{- h..<h}. spec_gx cur (row p + m) (col p + k) * spec_gx cur (row p + m) (col p + k)),
      M12 = (\<Sum>m\<in>{- h..<h}. \<Sum>k\<in>{- h..<h}. spec_gx cur (row p + m) (col p + k) * spec_gy cur (row p + m) (col p + k)),
      M22 = (\<Sum>m\<in>{- h..<h}. \<Sum>k\<in>{- h..<h}. spec_gy cur (row p + m) (col p + k) * spec_gy cur (row p + m) (col p + k)),
      b0 = (\<Sum>m\<in>{- h..<h}. \<Sum>k\<in>{- h..<h}. spec_gx cur (row p + m) (col p + k) * spec_dI cur prev (row p + m) (col p + k)),
      b1 = (\<Sum>m\<in>{- h..<h}. \<Sum>k\<in>{- h..<h}. spec_gy cur (row p + m) (col p + k) * spec_dI cur prev (row p + m) (col p + k))\<rparr>)"
  by (simp add: getOptFlow_sums_def flow_outer_sums c_div_neg Let_def)

subsection \<open>The accumulators are exact in double precision\<close>

text \<open>
  Every pixel is between 0 and 255, so every summand is a quarter (for \<^verbatim>\<open>M11\<close>, \<^verbatim>\<open>M12\<close>,
  \<^verbatim>\<open>M22\<close>) or a half (for \<^verbatim>\<open>b\<close>) of an integer of magnitude at most \<open>255\<^sup>2\<close>, and every
  accumulator is a quarter or a half of an integer of magnitude at most \<open>(2h)\<^sup>2 * 255\<^sup>2\<close>.
  For any neighbourhood in use that is far below \<open>2\<^sup>5\<^sup>3\<close>, so the \<^verbatim>\<open>double\<close> accumulators
  of the C code hold exactly the real sums of this model; only the inversion is idealised.
\<close>

lemma pixval8U_range: "0 \<le> pixval8U img r c \<and> pixval8U img r c \<le> 255"
  using uint_lt2p [of "imageData img (widthStep img * r + c)"]
  by (simp add: pixval8U_def)

lemma pixel_product_bound:
  fixes x1 x2 y1 y2 :: int
  assumes "0 \<le> x1 \<and> x1 \<le> 255" "0 \<le> x2 \<and> x2 \<le> 255" "0 \<le> y1 \<and> y1 \<le> 255" "0 \<le> y2 \<and> y2 \<le> 255"
  shows "\<bar>(x1 - x2) * (y1 - y2)\<bar> \<le> 65025"
proof -
  have "\<bar>x1 - x2\<bar> \<le> 255" "\<bar>y1 - y2\<bar> \<le> 255" using assms by auto
  then have "\<bar>x1 - x2\<bar> * \<bar>y1 - y2\<bar> \<le> 255 * 255"
    by (intro mult_mono) auto
  then show ?thesis by (simp add: abs_mult)
qed

lemma double_sum_bound:
  fixes f :: "int \<Rightarrow> int \<Rightarrow> int"
  assumes "\<And>m k. \<bar>f m k\<bar> \<le> B"
  shows "\<bar>\<Sum>m\<in>{- h..<h}. \<Sum>k\<in>{- h..<h}. f m k\<bar> \<le> (2 * \<bar>h\<bar>) * (2 * \<bar>h\<bar>) * B"
proof -
  have c: "int (card {- h..<h}) \<le> 2 * \<bar>h\<bar>" by simp
  have B0: "0 \<le> B" using assms [of 0 0] by simp
  have inner: "\<bar>\<Sum>k\<in>{- h..<h}. f m k\<bar> \<le> (2 * \<bar>h\<bar>) * B" for m
  proof -
    have "\<bar>\<Sum>k\<in>{- h..<h}. f m k\<bar> \<le> (\<Sum>k\<in>{- h..<h}. \<bar>f m k\<bar>)" by (rule sum_abs)
    also have "\<dots> \<le> (\<Sum>k\<in>{- h..<h}. B)" by (intro sum_mono assms)
    also have "\<dots> = int (card {- h..<h}) * B" by simp
    also have "\<dots> \<le> (2 * \<bar>h\<bar>) * B" using c B0 by (intro mult_right_mono) auto
    finally show ?thesis .
  qed
  have "\<bar>\<Sum>m\<in>{- h..<h}. \<Sum>k\<in>{- h..<h}. f m k\<bar> \<le> (\<Sum>m\<in>{- h..<h}. \<bar>\<Sum>k\<in>{- h..<h}. f m k\<bar>)"
    by (rule sum_abs)
  also have "\<dots> \<le> (\<Sum>m\<in>{- h..<h}. (2 * \<bar>h\<bar>) * B)" by (intro sum_mono inner)
  also have "\<dots> = int (card {- h..<h}) * ((2 * \<bar>h\<bar>) * B)" by simp
  also have "\<dots> \<le> (2 * \<bar>h\<bar>) * ((2 * \<bar>h\<bar>) * B)" using c B0 by (intro mult_right_mono) auto
  finally show ?thesis by (simp add: mult.assoc)
qed

lemma getOptFlow_sums_exact:
  "(let h = c_div area 2; B = (2 * \<bar>h\<bar>) * (2 * \<bar>h\<bar>) * 65025;
        k11 = (\<Sum>m\<in>{- h..<h}. \<Sum>k\<in>{- h..<h}. px_dx cur (row p + m) (col p + k) * px_dx cur (row p + m) (col p + k));
        k12 = (\<Sum>m\<in>{- h..<h}. \<Sum>k\<in>{- h..<h}. px_dx cur (row p + m) (col p + k) * px_dy cur (row p + m) (col p + k));
        k22 = (\<Sum>m\<in>{- h..<h}. \<Sum>k\<in>{- h..<h}. px_dy cur (row p + m) (col p + k) * px_dy cur (row p + m) (col p + k));
        k0 = (\<Sum>m\<in>{- h..<h}. \<Sum>k\<in>{- h..<h}. px_dx cur (row p + m) (col p + k) * px_dt cur prev (row p + m) (col p + k));
        k1 = (\<Sum>m\<in>{- h..<h}. \<Sum>k\<in>{- h..<h}. px_dy cur (row p + m) (col p + k) * px_dt cur prev (row p + m) (col p + k))
    in getOptFlow_sums area cur p prev =
         \<lparr>M11 = of_int k11 / 4, M12 = of_int k12 / 4, M22 = of_int k22 / 4,
          b0 = of_int k0 / 2, b1 = of_int k1 / 2\<rparr>
       \<and> \<bar>k11\<bar> \<le> B \<and> \<bar>k12\<bar> \<le> B \<and> \<bar>k22\<bar> \<le> B \<and> \<bar>k0\<bar> \<le> B \<and> \<bar>k1\<bar> \<le> B)"
proof -
  have gx: "spec_gx cur r c = of_int (px_dx cur r c) / 2" for r c
    by (simp add: spec_gx_def px_dx_def)
  have gy: "spec_gy cur r c = of_int (px_dy cur r c) / 2" for r c
    by (simp add: spec_gy_def px_dy_def)
  have dt: "spec_dI cur prev r c = of_int (px_dt cur prev r c)" for r c
    by (simp add: spec_dI_def px_dt_def)
  have b: "\<bar>px_dx cur r c * px_dx cur r' c'\<bar> \<le> 65025" "\<bar>px_dx cur r c * px_dy cur r' c'\<bar> \<le> 65025"
    "\<bar>px_dy cur r c * px_dy cur r' c'\<bar> \<le> 65025" "\<bar>px_dx cur r c * px_dt cur prev r' c'\<bar> \<le> 65025"
    "\<bar>px_dy cur r c * px_dt cur prev r' c'\<bar> \<le> 65025" for r c r' c'
    unfolding px_dx_def px_dy_def px_dt_def
    by (intro pixel_product_bound pixval8U_range)+
  have e: "getOptFlow_sums area cur p prev =
      \<lparr>M11 = of_int (\<Sum>m\<in>{- c_div area 2..<c_div area 2}. \<Sum>k\<in>{- c_div area 2..<c_div area 2}.
                px_dx cur (row p + m) (col p + k) * px_dx cur (row p + m) (col p + k)) / 4,
       M12 = of_int (\<Sum>m\<in>{- c_div area 2..<c_div area 2}. \<Sum>k\<in>{- c_div area 2..<c_div area 2}.
                px_dx cur (row p + m) (col p + k) * px_dy cur (row p + m) (col p + k)) / 4,
       M22 = of_int (\<Sum>m\<in>{- c_div area 2..<c_div area 2}. \<Sum>k\<in>{- c_div area 2..<c_div area 2}.
                px_dy cur (row p + m) (col p + k) * px_dy cur (row p + m) (col p + k)) / 4,
       b0 = of_int (\<Sum>m\<in>{- c_div area 2..<c_div area 2}. \<Sum>k\<in>{- c_div area 2..<c_div area 2}.
                px_dx cur (row p + m) (col p + k) * px_dt cur prev (row p + m) (col p + k)) / 2,
       b1 = of_int (\<Sum>m\<in>{- c_div area 2..<c_div area 2}. \<Sum>k\<in>{- c_div area 2..<c_div area 2}.
                px_dy cur (row p + m) (col p + k) * px_dt cur prev (row p + m) (col p + k)) / 2\<rparr>"
    unfolding Let_def getOptFlow_sums_eq gx gy dt
    by (simp add: sum_divide_distrib [symmetric])
  show ?thesis
    unfolding Let_def
    by (intro conjI e double_sum_bound b)
qed

subsection \<open>The model of \<^verbatim>\<open>cvInvert\<close> is the Moore-Penrose pseudo-inverse\<close>

lemma rank_one_cube:
  fixes a00 a01 a10 a11 :: real
  assumes d: "a00 * a11 = a01 * a10"
  shows "mat2_mul (a00, a01, a10, a11) (mat2_mul (a00, a10, a01, a11) (a00, a01, a10, a11)) =
      ((a00 * a00 + a01 * a01 + a10 * a10 + a11 * a11) * a00,
       (a00 * a00 + a01 * a01 + a10 * a10 + a11 * a11) * a01,
       (a00 * a00 + a01 * a01 + a10 * a10 + a11 * a11) * a10,
       (a00 * a00 + a01 * a01 + a10 * a10 + a11 * a11) * a11)"
proof -
  have "a00 * (a00 * a00 + a10 * a10) + a01 * (a01 * a00 + a11 * a10)
      = (a00 * a00 + a01 * a01 + a10 * a10 + a11 * a11) * a00"
    using d by algebra
  moreover have "a00 * (a00 * a01 + a10 * a11) + a01 * (a01 * a01 + a11 * a11)
      = (a00 * a00 + a01 * a01 + a10 * a10 + a11 * a11) * a01"
    using d by algebra
  moreover have "a10 * (a00 * a00 + a10 * a10) + a11 * (a01 * a00 + a11 * a10)
      = (a00 * a00 + a01 * a01 + a10 * a10 + a11 * a11) * a10"
    using d by algebra
  moreover have "a10 * (a00 * a01 + a10 * a11) + a11 * (a01 * a01 + a11 * a11)
      = (a00 * a00 + a01 * a01 + a10 * a10 + a11 * a11) * a11"
    using d by algebra
  ultimately show ?thesis by (simp only: mat2_mul_def prod.case)
qed


lemma mat2_mul_div:
  "mat2_mul (mat2_div A n) B = mat2_div (mat2_mul A B) n"
  "mat2_mul A (mat2_div B n) = mat2_div (mat2_mul A B) n"
  by (cases A; cases B; simp add: mat2_mul_def mat2_div_def add_divide_distrib)+

lemma mat2_transpose_div: "mat2_transpose (mat2_div A n) = mat2_div (mat2_transpose A) n"
  by (cases A) (simp add: mat2_transpose_def mat2_div_def)

lemma mat2_div_cancel:
  "n \<noteq> 0 \<Longrightarrow> mat2_div (n * a00, n * a01, n * a10, n * a11) n = (a00, a01, a10, a11)"
  by (simp add: mat2_div_def)

lemma mat2_gram_symmetric:
  "mat2_transpose (mat2_mul (a00, a01, a10, a11) (a00, a10, a01, a11)) =
     mat2_mul (a00, a01, a10, a11) (a00, a10, a01, a11)"
  by (simp add: mat2_mul_def mat2_transpose_def mult.commute)

lemma cvInvert_SVD_regular:
  assumes "a00 * a11 - a01 * a10 \<noteq> 0"
  shows "mat2_mul (a00, a01, a10, a11) (cvInvert_SVD (a00, a01, a10, a11)) = (1, 0, 0, 1)"
    and "mat2_mul (cvInvert_SVD (a00, a01, a10, a11)) (a00, a01, a10, a11) = (1, 0, 0, 1)"
proof -
  define dt where "dt = a00 * a11 - a01 * a10"
  have d0: "dt \<noteq> 0" using assms by (simp add: dt_def)
  have inv: "cvInvert_SVD (a00, a01, a10, a11) = mat2_div (a11, - a01, - a10, a00) dt"
    using assms by (simp add: cvInvert_SVD_def Let_def dt_def mat2_div_def)
  have m1: "mat2_mul (a00, a01, a10, a11) (a11, - a01, - a10, a00) = (dt * 1, dt * 0, dt * 0, dt * 1)"
    by (simp add: mat2_mul_def dt_def algebra_simps)
  have m2: "mat2_mul (a11, - a01, - a10, a00) (a00, a01, a10, a11) = (dt * 1, dt * 0, dt * 0, dt * 1)"
    by (simp add: mat2_mul_def dt_def algebra_simps)
  show "mat2_mul (a00, a01, a10, a11) (cvInvert_SVD (a00, a01, a10, a11)) = (1, 0, 0, 1)"
    by (simp only: inv mat2_mul_div m1 mat2_div_cancel [OF d0])
  show "mat2_mul (cvInvert_SVD (a00, a01, a10, a11)) (a00, a01, a10, a11) = (1, 0, 0, 1)"
    by (simp only: inv mat2_mul_div m2 mat2_div_cancel [OF d0])
qed

lemma mat2_mul_unit: "mat2_mul A (1, 0, 0, 1) = A" "mat2_mul (1, 0, 0, 1) A = A"
  by (cases A; simp add: mat2_mul_def)+

lemma cvInvert_SVD_rank_one:
  assumes d: "a00 * a11 = a01 * a10"
    and n: "n = a00 * a00 + a01 * a01 + a10 * a10 + a11 * a11" "n \<noteq> 0"
  shows "cvInvert_SVD (a00, a01, a10, a11) = mat2_div (a00, a10, a01, a11) n"
  using assms by (simp add: cvInvert_SVD_def Let_def mat2_div_def)

text \<open>The four Penrose equations, for every 2 by 2 matrix.\<close>

lemma cvInvert_SVD_penrose:
  "mat2_mul A (mat2_mul (cvInvert_SVD A) A) = A
   \<and> mat2_mul (cvInvert_SVD A) (mat2_mul A (cvInvert_SVD A)) = cvInvert_SVD A
   \<and> mat2_transpose (mat2_mul A (cvInvert_SVD A)) = mat2_mul A (cvInvert_SVD A)
   \<and> mat2_transpose (mat2_mul (cvInvert_SVD A) A) = mat2_mul (cvInvert_SVD A) A"
proof -
  obtain a00 a01 a10 a11 where A: "A = (a00, a01, a10, a11)" by (cases A) auto
  define n where "n = a00 * a00 + a01 * a01 + a10 * a10 + a11 * a11"
  show ?thesis
  proof (cases "a00 * a11 - a01 * a10 = 0")
    case False
    show ?thesis
      unfolding A by (simp add: cvInvert_SVD_regular [OF False] mat2_mul_unit mat2_transpose_def)
  next
    case True
    then have d: "a00 * a11 = a01 * a10" by simp
    show ?thesis
    proof (cases "n = 0")
      case True
      then have "a00 * a00 = 0 \<and> a01 * a01 = 0 \<and> a10 * a10 = 0 \<and> a11 * a11 = 0"
        by (simp add: n_def add_nonneg_eq_0_iff)
      then have "a00 = 0 \<and> a01 = 0 \<and> a10 = 0 \<and> a11 = 0" by simp
      then show ?thesis by (simp add: A mat2_mul_def mat2_transpose_def cvInvert_SVD_def)
    next
      case False
      have inv: "cvInvert_SVD (a00, a01, a10, a11) = mat2_div (a00, a10, a01, a11) n"
        by (rule cvInvert_SVD_rank_one [OF d n_def False])
      have d': "a00 * a11 = a10 * a01" using d by simp
      have n': "n = a00 * a00 + a10 * a10 + a01 * a01 + a11 * a11" by (simp add: n_def)
      have c1: "mat2_mul (a00, a01, a10, a11) (mat2_mul (a00, a10, a01, a11) (a00, a01, a10, a11))
          = (n * a00, n * a01, n * a10, n * a11)"
        unfolding n_def by (rule rank_one_cube [OF d])
      have c2: "mat2_mul (a00, a10, a01, a11) (mat2_mul (a00, a01, a10, a11) (a00, a10, a01, a11))
          = (n * a00, n * a10, n * a01, n * a11)"
        unfolding n' by (rule rank_one_cube [OF d'])
      have p1: "mat2_mul A (mat2_mul (cvInvert_SVD A) A) = A"
        by (simp only: A inv mat2_mul_div c1 mat2_div_cancel [OF False])
      have p2: "mat2_mul (cvInvert_SVD A) (mat2_mul A (cvInvert_SVD A)) = cvInvert_SVD A"
        by (simp only: A inv mat2_mul_div c2 mat2_div_cancel [OF False])
      have p3: "mat2_transpose (mat2_mul A (cvInvert_SVD A)) = mat2_mul A (cvInvert_SVD A)"
        by (simp only: A inv mat2_mul_div mat2_transpose_div mat2_gram_symmetric)
      have p4: "mat2_transpose (mat2_mul (cvInvert_SVD A) A) = mat2_mul (cvInvert_SVD A) A"
        by (simp only: A inv mat2_mul_div mat2_transpose_div mat2_gram_symmetric [of a00 a10 a01 a11])
      show ?thesis using p1 p2 p3 p4 by simp
    qed
  qed
qed

subsection \<open>The normal equations always have the returned solution\<close>

text \<open>
  Lagrange's identity: the determinant of the gradient structure matrix is half the sum
  of the squared 2 by 2 minors of the gradient samples. When it is 0 all gradients are
  parallel, and the right-hand side lies in the range of the matrix.
\<close>

lemma lagrange_identity:
  fixes a c :: "'i \<Rightarrow> real"
  shows "(\<Sum>k\<in>S. \<Sum>l\<in>S. (a k * c l - a l * c k)\<^sup>2) =
     2 * ((\<Sum>k\<in>S. a k * a k) * (\<Sum>k\<in>S. c k * c k) - (\<Sum>k\<in>S. a k * c k) * (\<Sum>k\<in>S. a k * c k))"
proof -
  have e: "(a k * c l - a l * c k)\<^sup>2 =
      (a k * a k) * (c l * c l) - 2 * ((a k * c k) * (a l * c l)) + (c k * c k) * (a l * a l)" for k l
    by (simp add: power2_eq_square algebra_simps)
  have s1: "(\<Sum>k\<in>S. \<Sum>l\<in>S. (a k * a k) * (c l * c l)) = (\<Sum>k\<in>S. a k * a k) * (\<Sum>k\<in>S. c k * c k)"
    by (simp add: sum_product)
  have s2: "(\<Sum>k\<in>S. \<Sum>l\<in>S. (a k * c k) * (a l * c l)) = (\<Sum>k\<in>S. a k * c k) * (\<Sum>k\<in>S. a k * c k)"
    by (simp add: sum_product)
  have s3: "(\<Sum>k\<in>S. \<Sum>l\<in>S. (c k * c k) * (a l * a l)) = (\<Sum>k\<in>S. c k * c k) * (\<Sum>k\<in>S. a k * a k)"
    by (simp add: sum_product)
  have "(\<Sum>k\<in>S. \<Sum>l\<in>S. (a k * c l - a l * c k)\<^sup>2) =
      (\<Sum>k\<in>S. \<Sum>l\<in>S. (a k * a k) * (c l * c l))
      - 2 * (\<Sum>k\<in>S. \<Sum>l\<in>S. (a k * c k) * (a l * c l))
      + (\<Sum>k\<in>S. \<Sum>l\<in>S. (c k * c k) * (a l * a l))"
    unfolding e by (simp add: sum.distrib sum_subtractf sum_distrib_left)
  then show ?thesis unfolding s1 s2 s3 by (simp add: algebra_simps)
qed

lemma singular_proportional:
  fixes a c :: "'i \<Rightarrow> real"
  assumes fin: "finite S"
    and det0: "(\<Sum>k\<in>S. a k * a k) * (\<Sum>k\<in>S. c k * c k) = (\<Sum>k\<in>S. a k * c k) * (\<Sum>k\<in>S. a k * c k)"
    and k: "k \<in> S" and l: "l \<in> S"
  shows "a k * c l = a l * c k"
proof -
  have z: "(\<Sum>k\<in>S. \<Sum>l\<in>S. (a k * c l - a l * c k)\<^sup>2) = 0"
    unfolding lagrange_identity using det0 by simp
  have "(\<Sum>l\<in>S. (a k * c l - a l * c k)\<^sup>2) = 0"
    using z k fin by (subst (asm) sum_nonneg_eq_0_iff) (auto intro: sum_nonneg)
  then have "(a k * c l - a l * c k)\<^sup>2 = 0"
    using l fin by (subst (asm) sum_nonneg_eq_0_iff) auto
  then show ?thesis by simp
qed

lemma singular_rhs:
  fixes a c e :: "'i \<Rightarrow> real"
  assumes fin: "finite S"
    and det0: "(\<Sum>k\<in>S. a k * a k) * (\<Sum>k\<in>S. c k * c k) = (\<Sum>k\<in>S. a k * c k) * (\<Sum>k\<in>S. a k * c k)"
  shows "(\<Sum>k\<in>S. a k * c k) * (\<Sum>k\<in>S. c k * e k) = (\<Sum>k\<in>S. c k * c k) * (\<Sum>k\<in>S. a k * e k)"
    and "(\<Sum>k\<in>S. a k * c k) * (\<Sum>k\<in>S. a k * e k) = (\<Sum>k\<in>S. a k * a k) * (\<Sum>k\<in>S. c k * e k)"
proof -
  have p: "a k * c l = a l * c k" if "k \<in> S" "l \<in> S" for k l
    using singular_proportional [OF fin det0 that] .
  have "(\<Sum>k\<in>S. \<Sum>l\<in>S. (a k * c k) * (c l * e l)) = (\<Sum>k\<in>S. \<Sum>l\<in>S. (c k * c k) * (a l * e l))"
  proof (intro sum.cong refl)
    fix k l assume "k \<in> S" "l \<in> S"
    have "(a k * c k) * (c l * e l) = c k * (a k * c l) * e l" by (simp only: mult_ac)
    also have "\<dots> = c k * (a l * c k) * e l" by (simp only: p [OF \<open>k \<in> S\<close> \<open>l \<in> S\<close>])
    also have "\<dots> = (c k * c k) * (a l * e l)" by (simp only: mult_ac)
    finally show "(a k * c k) * (c l * e l) = (c k * c k) * (a l * e l)" .
  qed
  then show "(\<Sum>k\<in>S. a k * c k) * (\<Sum>k\<in>S. c k * e k) = (\<Sum>k\<in>S. c k * c k) * (\<Sum>k\<in>S. a k * e k)"
    by (simp add: sum_product)
  have "(\<Sum>k\<in>S. \<Sum>l\<in>S. (a k * c k) * (a l * e l)) = (\<Sum>k\<in>S. \<Sum>l\<in>S. (a k * a k) * (c l * e l))"
  proof (intro sum.cong refl)
    fix k l assume "k \<in> S" "l \<in> S"
    have "(a k * c k) * (a l * e l) = a k * (a l * c k) * e l" by (simp only: mult_ac)
    also have "\<dots> = a k * (a k * c l) * e l" by (simp only: p [OF \<open>k \<in> S\<close> \<open>l \<in> S\<close>])
    also have "\<dots> = (a k * a k) * (c l * e l)" by (simp only: mult_ac)
    finally show "(a k * c k) * (a l * e l) = (a k * a k) * (c l * e l)" .
  qed
  then show "(\<Sum>k\<in>S. a k * c k) * (\<Sum>k\<in>S. a k * e k) = (\<Sum>k\<in>S. a k * a k) * (\<Sum>k\<in>S. c k * e k)"
    by (simp add: sum_product)
qed

lemma zero_matrix_rhs:
  fixes a e :: "'i \<Rightarrow> real"
  assumes fin: "finite S" and z: "(\<Sum>k\<in>S. a k * a k) = 0"
  shows "(\<Sum>k\<in>S. a k * e k) = 0"
proof -
  have "\<forall>k\<in>S. a k * a k = 0"
    using z fin by (subst (asm) sum_nonneg_eq_0_iff) auto
  then show ?thesis by simp
qed

lemma rank_one_solve:
  fixes m11 m12 m22 y0 y1 :: real
  assumes det0: "m11 * m22 = m12 * m12"
    and e1: "m12 * y1 = m22 * y0"
    and e2: "m12 * y0 = m11 * y1"
    and n: "m11 * m11 + m12 * m12 + m12 * m12 + m22 * m22 \<noteq> 0"
  shows "cvMatMul (m11, m12, m12, m22) (cvMatMul (cvInvert_SVD (m11, m12, m12, m22)) (y0, y1)) = (y0, y1)"
proof -
  define t where "t = m11 + m22"
  define n where "n = m11 * m11 + m12 * m12 + m12 * m12 + m22 * m22"
  have nt: "n = t * t" unfolding n_def t_def using det0 by (simp add: algebra_simps)
  have n0: "n \<noteq> 0" using assms(4) by (simp add: n_def)
  have r0: "m11 * y0 + m12 * y1 = t * y0" unfolding t_def using e1 by (simp add: algebra_simps)
  have r1: "m12 * y0 + m22 * y1 = t * y1" unfolding t_def using e2 by (simp add: algebra_simps)
  have inv: "cvInvert_SVD (m11, m12, m12, m22) = (m11 / n, m12 / n, m12 / n, m22 / n)"
    using det0 n0 by (simp add: cvInvert_SVD_def Let_def n_def)
  have v: "cvMatMul (m11 / n, m12 / n, m12 / n, m22 / n) (y0, y1) = (t * y0 / n, t * y1 / n)"
    using r0 r1 by (simp add: cvMatMul_def add_divide_distrib [symmetric])
  have "m11 * (t * y0 / n) + m12 * (t * y1 / n) = t * (m11 * y0 + m12 * y1) / n"
    by (simp add: algebra_simps add_divide_distrib)
  also have "\<dots> = y0" unfolding r0 using n0 nt by simp
  finally have c0: "m11 * (t * y0 / n) + m12 * (t * y1 / n) = y0" .
  have "m12 * (t * y0 / n) + m22 * (t * y1 / n) = t * (m12 * y0 + m22 * y1) / n"
    by (simp add: algebra_simps add_divide_distrib)
  also have "\<dots> = y1" unfolding r1 using n0 nt by simp
  finally have c1: "m12 * (t * y0 / n) + m22 * (t * y1 / n) = y1" .
  have "cvMatMul (m11, m12, m12, m22) (t * y0 / n, t * y1 / n) =
      (m11 * (t * y0 / n) + m12 * (t * y1 / n), m12 * (t * y0 / n) + m22 * (t * y1 / n))"
    by (simp add: cvMatMul_def)
  also have "\<dots> = (y0, y1)" by (simp only: c0 c1)
  finally show ?thesis unfolding inv v .
qed

lemma regular_solve:
  fixes m11 m12 m22 y0 y1 :: real
  assumes det: "m11 * m22 - m12 * m12 \<noteq> 0"
  shows "cvMatMul (m11, m12, m12, m22) (cvMatMul (cvInvert_SVD (m11, m12, m12, m22)) (y0, y1)) = (y0, y1)"
proof -
  define dt where "dt = m11 * m22 - m12 * m12"
  have d0: "dt \<noteq> 0" using det by (simp add: dt_def)
  have inv: "cvInvert_SVD (m11, m12, m12, m22) = (m22 / dt, - m12 / dt, - m12 / dt, m11 / dt)"
    using det by (simp add: cvInvert_SVD_def Let_def dt_def)
  have "m11 * (m22 / dt * y0 + - m12 / dt * y1) + m12 * (- m12 / dt * y0 + m11 / dt * y1)
      = (m11 * m22 - m12 * m12) * y0 / dt"
    using d0 by (simp add: field_simps)
  also have "\<dots> = y0" using d0 by (simp add: dt_def)
  finally have c0: "m11 * (m22 / dt * y0 + - m12 / dt * y1) + m12 * (- m12 / dt * y0 + m11 / dt * y1) = y0" .
  have "m12 * (m22 / dt * y0 + - m12 / dt * y1) + m22 * (- m12 / dt * y0 + m11 / dt * y1)
      = (m11 * m22 - m12 * m12) * y1 / dt"
    using d0 by (simp add: field_simps)
  also have "\<dots> = y1" using d0 by (simp add: dt_def)
  finally have c1: "m12 * (m22 / dt * y0 + - m12 / dt * y1) + m22 * (- m12 / dt * y0 + m11 / dt * y1) = y1" .
  have "cvMatMul (m11, m12, m12, m22) (cvMatMul (m22 / dt, - m12 / dt, - m12 / dt, m11 / dt) (y0, y1)) =
      (m11 * (m22 / dt * y0 + - m12 / dt * y1) + m12 * (- m12 / dt * y0 + m11 / dt * y1),
       m12 * (m22 / dt * y0 + - m12 / dt * y1) + m22 * (- m12 / dt * y0 + m11 / dt * y1))"
    by (simp add: cvMatMul_def)
  also have "\<dots> = (y0, y1)" by (simp only: c0 c1)
  finally show ?thesis unfolding inv .
qed

lemma normal_equations_solved:
  fixes a c e :: "'i \<Rightarrow> real"
  assumes fin: "finite S"
  shows "cvMatMul (\<Sum>k\<in>S. a k * a k, \<Sum>k\<in>S. a k * c k, \<Sum>k\<in>S. a k * c k, \<Sum>k\<in>S. c k * c k)
           (cvMatMul (cvInvert_SVD (\<Sum>k\<in>S. a k * a k, \<Sum>k\<in>S. a k * c k, \<Sum>k\<in>S. a k * c k, \<Sum>k\<in>S. c k * c k))
              (- (\<Sum>k\<in>S. a k * e k), - (\<Sum>k\<in>S. c k * e k)))
         = (- (\<Sum>k\<in>S. a k * e k), - (\<Sum>k\<in>S. c k * e k))"
proof -
  define m11 where "m11 = (\<Sum>k\<in>S. a k * a k)"
  define m12 where "m12 = (\<Sum>k\<in>S. a k * c k)"
  define m22 where "m22 = (\<Sum>k\<in>S. c k * c k)"
  define y0 where "y0 = (\<Sum>k\<in>S. a k * e k)"
  define y1 where "y1 = (\<Sum>k\<in>S. c k * e k)"
  have goal: "cvMatMul (m11, m12, m12, m22) (cvMatMul (cvInvert_SVD (m11, m12, m12, m22)) (- y0, - y1)) = (- y0, - y1)"
  proof (cases "m11 * m22 - m12 * m12 = 0")
    case False
    then show ?thesis by (rule regular_solve)
  next
    case True
    then have det0: "m11 * m22 = m12 * m12" by simp
    show ?thesis
    proof (cases "m11 * m11 + m12 * m12 + m12 * m12 + m22 * m22 = 0")
      case False
      have e1: "m12 * y1 = m22 * y0" and e2: "m12 * y0 = m11 * y1"
        using singular_rhs [OF fin, of a c e] det0
        by (simp_all add: m11_def m12_def m22_def y0_def y1_def)
      show ?thesis
        by (rule rank_one_solve [OF det0 _ _ False]) (simp_all add: e1 e2)
    next
      case zero: True
      have "m11 * m11 = 0" "m22 * m22 = 0" "m12 * m12 = 0"
        using zero by (simp_all add: add_nonneg_eq_0_iff)
      then have z: "m11 = 0" "m22 = 0" "m12 = 0" by simp_all
      have "y0 = 0"
        unfolding y0_def using zero_matrix_rhs [OF fin, of a e] z(1) by (simp add: m11_def)
      moreover have "y1 = 0"
        unfolding y1_def using zero_matrix_rhs [OF fin, of c e] z(2) by (simp add: m22_def)
      ultimately show ?thesis by (simp add: z cvMatMul_def cvInvert_SVD_def)
    qed
  qed
  show ?thesis using goal by (simp add: m11_def m12_def m22_def y0_def y1_def)
qed

lemma sum_offsets:
  fixes f :: "int \<Rightarrow> int \<Rightarrow> real"
  shows "(\<Sum>m\<in>A. \<Sum>k\<in>B. f m k) = (\<Sum>x\<in>A \<times> B. case x of (m, k) \<Rightarrow> f m k)"
  by (simp add: sum.cartesian_product)

text \<open>
  Claim C1. For every point \<open>p\<close> and pair of frames, with \<open>N\<close> the square of offsets the
  loops run over, \<open>gx\<close> and \<open>gy\<close> the central-difference gradients of the current frame
  and \<open>dI\<close> the difference current minus previous: \<^verbatim>\<open>getOptFlow\<close> forms
  \<open>M = [[\<Sum>gx\<^sup>2, \<Sum>gx gy], [\<Sum>gx gy, \<Sum>gy\<^sup>2]]\<close> and \<open>b = [\<Sum>gx dI, \<Sum>gy dI]\<close> over \<open>N\<close>, and
  returns \<open>v = cvInvert M * (- b)\<close>, its second component as \<open>drow\<close> and its first as
  \<open>dcol\<close>; and this \<open>v\<close> solves \<open>M * v = - b\<close>, also when \<open>M\<close> is singular.
\<close>

theorem getOptFlow_solves_normal_equations:
  "(let h = c_div area 2;
        N = {- h..<h} \<times> {- h..<h};
        gx = (\<lambda>(i, j). spec_gx cur (row p + i) (col p + j));
        gy = (\<lambda>(i, j). spec_gy cur (row p + i) (col p + j));
        dI = (\<lambda>(i, j). spec_dI cur prev (row p + i) (col p + j));
        M = (\<Sum>x\<in>N. gx x * gx x, \<Sum>x\<in>N. gx x * gy x, \<Sum>x\<in>N. gx x * gy x, \<Sum>x\<in>N. gy x * gy x);
        b = (\<Sum>x\<in>N. gx x * dI x, \<Sum>x\<in>N. gy x * dI x);
        v = cvMatMul (cvInvert_SVD M) (- fst b, - snd b)
    in getOptFlow area cur p prev = \<lparr>drow = snd v, dcol = fst v\<rparr>
       \<and> cvMatMul M v = (- fst b, - snd b))"
proof -
  define h where "h = c_div area 2"
  define N where "N = {- h..<h} \<times> {- h..<h}"
  define gx where "gx = (\<lambda>(i, j). spec_gx cur (row p + i) (col p + j))"
  define gy where "gy = (\<lambda>(i, j). spec_gy cur (row p + i) (col p + j))"
  define dI where "dI = (\<lambda>(i, j). spec_dI cur prev (row p + i) (col p + j))"
  have fin: "finite N" by (simp add: N_def)
  have sums: "getOptFlow_sums area cur p prev =
      \<lparr>M11 = (\<Sum>x\<in>N. gx x * gx x), M12 = (\<Sum>x\<in>N. gx x * gy x), M22 = (\<Sum>x\<in>N. gy x * gy x),
       b0 = (\<Sum>x\<in>N. gx x * dI x), b1 = (\<Sum>x\<in>N. gy x * dI x)\<rparr>"
    unfolding getOptFlow_sums_eq Let_def sum_offsets
    by (simp add: h_def N_def gx_def gy_def dI_def case_prod_unfold)
  have res: "getOptFlow area cur p prev =
      \<lparr>drow = snd (cvMatMul (cvInvert_SVD (\<Sum>x\<in>N. gx x * gx x, \<Sum>x\<in>N. gx x * gy x, \<Sum>x\<in>N. gx x * gy x, \<Sum>x\<in>N. gy x * gy x))
                 (- (\<Sum>x\<in>N. gx x * dI x), - (\<Sum>x\<in>N. gy x * dI x))),
       dcol = fst (cvMatMul (cvInvert_SVD (\<Sum>x\<in>N. gx x * gx x, \<Sum>x\<in>N. gx x * gy x, \<Sum>x\<in>N. gx x * gy x, \<Sum>x\<in>N. gy x * gy x))
                 (- (\<Sum>x\<in>N. gx x * dI x), - (\<Sum>x\<in>N. gy x * dI x)))\<rparr>"
    by (simp add: getOptFlow_def sums Let_def)
  show ?thesis
    unfolding Let_def h_def [symmetric] N_def [symmetric] gx_def [symmetric] gy_def [symmetric]
      dI_def [symmetric] fst_conv snd_conv
    using res normal_equations_solved [OF fin, of gx gy dI] by simp
qed

lemmas flow_eval = getOptFlow_sums_def flow_outer.simps flow_inner.simps flow_body_def partial_def
  pixval8U_def c_div_def Let_def

text \<open>
  An instance with a singular matrix: every pixel of the current frame holds its column
  number, the previous frame is black, the point is (5, 5) and the area constant is 2.
  All gradients point along the columns, \<open>M\<close> has rank 1, and the displacement is the
  minimum-norm solution.
\<close>

lemma getOptFlow_sums_example:
  "getOptFlow_sums 2 \<lparr>widthStep = 16, imageData = (\<lambda>a. word_of_int (a mod 16))\<rparr> \<lparr>row = 5, col = 5\<rparr>
      \<lparr>widthStep = 16, imageData = (\<lambda>a. 0)\<rparr>
   = \<lparr>M11 = 4, M12 = 0, M22 = 0, b0 = 18, b1 = 0\<rparr>"
  by (simp add: flow_eval)

lemma getOptFlow_rank_one_example:
  "getOptFlow 2 \<lparr>widthStep = 16, imageData = (\<lambda>a. word_of_int (a mod 16))\<rparr> \<lparr>row = 5, col = 5\<rparr>
      \<lparr>widthStep = 16, imageData = (\<lambda>a. 0)\<rparr>
   = \<lparr>drow = 0, dcol = - 9 / 2\<rparr>"
  by (simp add: getOptFlow_def getOptFlow_sums_example cvInvert_SVD_def cvMatMul_def Let_def)

subsection \<open>The offsets the loops visit\<close>

lemma flow_inner_foldl:
  "flow_inner cur prev p i j hi a = foldl (\<lambda>a k. flow_body cur prev p i k a) a [j..hi - 1]"
proof (induction cur prev p i j hi a rule: flow_inner.induct)
  case (1 cur prev p i j hi a)
  show ?case
  proof (cases "j < hi")
    case True
    then have u: "[j..hi - 1] = j # [j + 1..hi - 1]" by (simp add: upto_rec1)
    show ?thesis
      apply (subst flow_inner.simps)
      apply (simp only: True if_True "1.IH" [OF True] u)
      apply simp
      done
  next
    case False
    then show ?thesis by (subst flow_inner.simps) simp
  qed
qed

lemma flow_outer_foldl:
  "flow_outer cur prev p lo i hi a =
     foldl (\<lambda>a m. foldl (\<lambda>a k. flow_body cur prev p m k a) a [lo..hi - 1]) a [i..hi - 1]"
proof (induction cur prev p lo i hi a rule: flow_outer.induct)
  case (1 cur prev p lo i hi a)
  show ?case
  proof (cases "i < hi")
    case True
    then have u: "[i..hi - 1] = i # [i + 1..hi - 1]" by (simp add: upto_rec1)
    show ?thesis
      apply (subst flow_outer.simps)
      apply (simp only: True if_True "1.IH" [OF True] u)
      apply (simp add: flow_inner_foldl)
      done
  next
    case False
    then show ?thesis by (subst flow_outer.simps) simp
  qed
qed

lemma foldl_product:
  "foldl (\<lambda>a x. foldl (\<lambda>a y. f x y a) a ys) a xs = foldl (\<lambda>a (x, y). f x y a) a (List.product xs ys)"
proof (induction xs arbitrary: a)
  case Nil
  then show ?case by simp
next
  case (Cons x xs)
  have "foldl (\<lambda>a (x, y). f x y a) a (map (Pair x) ys) = foldl (\<lambda>a y. f x y a) a ys" for a
    by (induction ys arbitrary: a) simp_all
  then show ?case by (simp add: Cons.IH)
qed

text \<open>
  Claim C5, as stated, has every offset with \<open>- h \<le> i \<le> h\<close> and \<open>- h \<le> j \<le> h\<close>
  contribute. Both loops stop before \<open>h\<close>. With the area constant 2 (so \<open>h = 1\<close>) and the
  frames of the instance above, the accumulators after the loops are not what the nine
  offsets of \<open>{-1, 0, 1}\<close> squared would give: each offset adds 1 to \<^verbatim>\<open>M11\<close> there, and
  the loops leave 4.
\<close>

theorem getOptFlow_sums_not_symmetric:
  "getOptFlow_sums 2 \<lparr>widthStep = 16, imageData = (\<lambda>a. word_of_int (a mod 16))\<rparr> \<lparr>row = 5, col = 5\<rparr>
      \<lparr>widthStep = 16, imageData = (\<lambda>a. 0)\<rparr>
   \<noteq> foldl (\<lambda>a (i, j). flow_body \<lparr>widthStep = 16, imageData = (\<lambda>a. word_of_int (a mod 16))\<rparr>
                \<lparr>widthStep = 16, imageData = (\<lambda>a. 0)\<rparr> \<lparr>row = 5, col = 5\<rparr> i j a)
        \<lparr>M11 = 0, M12 = 0, M22 = 0, b0 = 0, b1 = 0\<rparr> (List.product [- 1..1] [- 1..1])"
proof -
  have u: "[- 1..1::int] = [- 1, 0, 1]" by (simp add: upto_rec1)
  show ?thesis unfolding u by (simp add: flow_eval)
qed

text \<open>
  Claim C5, amended. With \<open>h\<close> the area constant divided by 2 (truncated), the
  accumulation ranges over the offsets \<open>(i, j)\<close> with \<open>- h \<le> i < h\<close> and \<open>- h \<le> j < h\<close>:
  the accumulators are the loop body folded over a list of offsets, rows outermost, that
  has no duplicates and holds exactly those offsets, so each contributes exactly once and
  no other offset contributes.
\<close>

theorem getOptFlow_sums_offsets:
  "(let h = c_div area 2;
        offsets = List.product [- h..h - 1] [- h..h - 1]
    in getOptFlow_sums area cur p prev =
         foldl (\<lambda>a (i, j). flow_body cur prev p i j a)
           \<lparr>M11 = 0, M12 = 0, M22 = 0, b0 = 0, b1 = 0\<rparr> offsets
       \<and> distinct offsets
       \<and> set offsets = {(i, j). - h \<le> i \<and> i < h \<and> - h \<le> j \<and> j < h})"
  unfolding Let_def getOptFlow_sums_def flow_outer_foldl c_div_neg foldl_product
  by (auto simp: distinct_product)

subsection \<open>Only a bounded patch is read\<close>

text \<open>
  Claim C10. Let \<open>h\<close> be the area constant divided by 2. If two pairs of frames agree on
  every pixel with row in \<open>[row p - h - 1, row p + h]\<close> and column in
  \<open>[col p - h - 1, col p + h]\<close>, the current frames with each other and the previous
  frames with each other, then \<^verbatim>\<open>getOptFlow\<close> at \<open>p\<close> returns the same displacement for
  both pairs.
\<close>

theorem getOptFlow_local:
  assumes h: "h = c_div area 2"
    and eq: "\<forall>r\<in>{row p - h - 1..row p + h}. \<forall>c\<in>{col p - h - 1..col p + h}.
        pixval8U cur1 r c = pixval8U cur2 r c \<and> pixval8U prev1 r c = pixval8U prev2 r c"
  shows "getOptFlow area cur1 p prev1 = getOptFlow area cur2 p prev2"
proof -
  have px: "pixval8U cur1 r c = pixval8U cur2 r c" "pixval8U prev1 r c = pixval8U prev2 r c"
    if "row p - h - 1 \<le> r" "r \<le> row p + h" "col p - h - 1 \<le> c" "c \<le> col p + h" for r c
    using eq that by auto
  have g: "spec_gx cur1 (row p + m) (col p + k) = spec_gx cur2 (row p + m) (col p + k)"
     "spec_gy cur1 (row p + m) (col p + k) = spec_gy cur2 (row p + m) (col p + k)"
     "spec_dI cur1 prev1 (row p + m) (col p + k) = spec_dI cur2 prev2 (row p + m) (col p + k)"
    if "m \<in> {- h..<h}" "k \<in> {- h..<h}" for m k
  proof -
    from that have b: "- h \<le> m" "m < h" "- h \<le> k" "k < h" by simp_all
    have "pixval8U cur1 (row p + m) (col p + k + 1) = pixval8U cur2 (row p + m) (col p + k + 1)"
      "pixval8U cur1 (row p + m) (col p + k - 1) = pixval8U cur2 (row p + m) (col p + k - 1)"
      using b by (auto intro!: px)
    then show "spec_gx cur1 (row p + m) (col p + k) = spec_gx cur2 (row p + m) (col p + k)"
      by (simp only: spec_gx_def)
    have "pixval8U cur1 (row p + m + 1) (col p + k) = pixval8U cur2 (row p + m + 1) (col p + k)"
      "pixval8U cur1 (row p + m - 1) (col p + k) = pixval8U cur2 (row p + m - 1) (col p + k)"
      using b by (auto intro!: px)
    then show "spec_gy cur1 (row p + m) (col p + k) = spec_gy cur2 (row p + m) (col p + k)"
      by (simp only: spec_gy_def)
    have "pixval8U cur1 (row p + m) (col p + k) = pixval8U cur2 (row p + m) (col p + k)"
      "pixval8U prev1 (row p + m) (col p + k) = pixval8U prev2 (row p + m) (col p + k)"
      using b by (auto intro!: px)
    then show "spec_dI cur1 prev1 (row p + m) (col p + k) = spec_dI cur2 prev2 (row p + m) (col p + k)"
      by (simp only: spec_dI_def)
  qed
  have "getOptFlow_sums area cur1 p prev1 = getOptFlow_sums area cur2 p prev2"
    unfolding getOptFlow_sums_eq Let_def h [symmetric]
    by (auto intro!: sum.cong simp: g)
  then show ?thesis by (simp add: getOptFlow_def)
qed

text \<open>
  Two pairs of frames that differ outside the patch around (5, 5): the current frames at
  byte 1000, the previous frames at byte 7 (row 0, column 7).
\<close>

theorem getOptFlow_local_witness:
  "getOptFlow 2 \<lparr>widthStep = 16, imageData = (\<lambda>a. word_of_int (a mod 16))\<rparr> \<lparr>row = 5, col = 5\<rparr>
      \<lparr>widthStep = 16, imageData = (\<lambda>a. 0)\<rparr>
   = getOptFlow 2 \<lparr>widthStep = 16, imageData = (\<lambda>a. if a = 1000 then 200 else word_of_int (a mod 16))\<rparr>
      \<lparr>row = 5, col = 5\<rparr>
      \<lparr>widthStep = 16, imageData = (\<lambda>a. if a = 7 then 9 else 0)\<rparr>"
proof (rule getOptFlow_local [where h = 1])
  show "1 = c_div 2 2" by (simp add: c_div_def)
  show "\<forall>r\<in>{row \<lparr>row = 5, col = 5\<rparr> - 1 - 1..row \<lparr>row = 5, col = 5\<rparr> + 1}.
       \<forall>c\<in>{col \<lparr>row = 5, col = 5\<rparr> - 1 - 1..col \<lparr>row = 5, col = 5\<rparr> + 1}.
          pixval8U \<lparr>widthStep = 16, imageData = \<lambda>a. word_of_int (a mod 16)\<rparr> r c =
          pixval8U \<lparr>widthStep = 16, imageData = \<lambda>a. if a = 1000 then 200 else word_of_int (a mod 16)\<rparr> r c \<and>
          pixval8U \<lparr>widthStep = 16, imageData = \<lambda>a. 0\<rparr> r c =
          pixval8U \<lparr>widthStep = 16, imageData = \<lambda>a. if a = 7 then 9 else 0\<rparr> r c"
    by (auto simp: pixval8U_def)
qed

text \<open>
  On a patch of one uniform intensity all gradients vanish, \<open>M\<close> and \<open>b\<close> are 0, and the
  displacement is 0 whatever the previous frame holds.
\<close>

lemma getOptFlow_uniform_patch:
  assumes h: "h = c_div area 2"
    and u: "\<forall>r\<in>{row p - h - 1..row p + h}. \<forall>c\<in>{col p - h - 1..col p + h}. pixval8U cur r c = v"
  shows "getOptFlow area cur p prev = \<lparr>drow = 0, dcol = 0\<rparr>"
proof -
  have px: "pixval8U cur r c = v"
    if "row p - h - 1 \<le> r" "r \<le> row p + h" "col p - h - 1 \<le> c" "c \<le> col p + h" for r c
    using u that by auto
  have g: "spec_gx cur (row p + m) (col p + k) = 0" "spec_gy cur (row p + m) (col p + k) = 0"
    if "m \<in> {- h..<h}" "k \<in> {- h..<h}" for m k
  proof -
    from that have b: "- h \<le> m" "m < h" "- h \<le> k" "k < h" by simp_all
    have "pixval8U cur (row p + m) (col p + k + 1) = v"
      "pixval8U cur (row p + m) (col p + k - 1) = v"
      using b by (auto intro!: px)
    then show "spec_gx cur (row p + m) (col p + k) = 0"
      by (simp add: spec_gx_def)
    have "pixval8U cur (row p + m + 1) (col p + k) = v"
      "pixval8U cur (row p + m - 1) (col p + k) = v"
      using b by (auto intro!: px)
    then show "spec_gy cur (row p + m) (col p + k) = 0"
      by (simp add: spec_gy_def)
  qed
  have "getOptFlow_sums area cur p prev = \<lparr>M11 = 0, M12 = 0, M22 = 0, b0 = 0, b1 = 0\<rparr>"
    unfolding getOptFlow_sums_eq Let_def h [symmetric]
    by (simp add: g)
  then show ?thesis
    by (simp add: getOptFlow_def cvInvert_SVD_def cvMatMul_def)
qed

end
